theory Spec2Isabelle
  imports Complex_Main
begin

section \<open>JavaScript strings\<close>

text \<open>
  The chat assistant's message understanding lives in \<^verbatim>\<open>backend/services/nlpService.js\<close>
  (class \<^verbatim>\<open>NLPService\<close>) and its caller \<^verbatim>\<open>backend/routes/chat.js\<close>.
  A JavaScript string is modelled as a \<^typ>\<open>string\<close> whose characters are the code
  points below 256 (Latin-1); a JavaScript \<^verbatim>\<open>Number\<close> is modelled as an exact
  rational, so the rounding of IEEE doubles is not part of the model.
\<close>

definition lowerChar :: "char \<Rightarrow> char" where
  "lowerChar c =
     (let n = (of_char c :: nat) in
      if (65 \<le> n \<and> n \<le> 90) \<or> (192 \<le> n \<and> n \<le> 222 \<and> n \<noteq> 215)
      then char_of (n + 32) else c)"

definition toLowerCase :: "string \<Rightarrow> string" where
  "toLowerCase s = map lowerChar s"

text \<open>\<^verbatim>\<open>s.includes(t)\<close>: \<^verbatim>\<open>t\<close> occurs in \<^verbatim>\<open>s\<close> as a contiguous substring.\<close>

fun startsWith :: "string \<Rightarrow> string \<Rightarrow> bool" where
  "startsWith s [] = True"
| "startsWith [] (c # t) = False"
| "startsWith (d # s) (c # t) = (d = c \<and> startsWith s t)"

fun includesStr :: "string \<Rightarrow> string \<Rightarrow> bool" where
  "includesStr [] t = (t = [])"
| "includesStr (d # s) t = (startsWith (d # s) t \<or> includesStr s t)"

text \<open>The regular expression class \<^verbatim>\<open>\s\<close> on code points below 256.\<close>

definition isSpace :: "char \<Rightarrow> bool" where
  "isSpace c = (let n = (of_char c :: nat) in (9 \<le> n \<and> n \<le> 13) \<or> n = 32 \<or> n = 160)"

text \<open>
  \<^verbatim>\<open>s.split(/\s+/)\<close>: the pieces between maximal runs of white space. A run at the start
  or at the end of the string leaves an empty piece there, and the empty string splits
  into one empty piece. A run of white space is consumed one character at a time: only
  its last character closes the piece before it.
\<close>

fun splitWs :: "string \<Rightarrow> string list" where
  "splitWs [] = [[]]"
| "splitWs (c # s) =
     (if isSpace c
      then (case s of d # r \<Rightarrow> if isSpace d then splitWs s else [] # splitWs s
                    | [] \<Rightarrow> [[], []])
      else (case splitWs s of [] \<Rightarrow> [[c]] | w # ws \<Rightarrow> (c # w) # ws))"

section \<open>Fallback sentiment analysis\<close>

record sentiment =
  score :: rat
  positive :: nat
  negative :: nat
  neutral :: nat

definition positiveWords :: "string list" where
  "positiveWords = [''good'', ''great'', ''excellent'', ''amazing'', ''wonderful'', ''happy'',
     ''thank'', ''thanks'', ''appreciate'', ''love'', ''like'', ''perfect'', ''awesome'',
     ''fantastic'', ''brilliant'', ''outstanding'']"

definition negativeWords :: "string list" where
  "negativeWords = [''bad'', ''terrible'', ''awful'', ''horrible'', ''sad'', ''angry'',
     ''frustrated'', ''disappointed'', ''hate'', ''dislike'', ''worst'', ''useless'', ''stupid'',
     ''annoying'', ''problem'', ''issue'', ''error'']"

text \<open>
  \<^verbatim>\<open>words.forEach(word => { if (messageLower.includes(word)) count++; })\<close>:
  the counter is threaded through the list.
\<close>

definition countHits :: "string \<Rightarrow> string list \<Rightarrow> nat" where
  "countHits messageLower ws = fold (\<lambda>word n. if includesStr messageLower word then n + 1 else n) ws 0"

definition fallbackSentimentAnalysis :: "string \<Rightarrow> sentiment" where
  "fallbackSentimentAnalysis message =
     (let messageLower = toLowerCase message;
          positiveCount = countHits messageLower positiveWords;
          negativeCount = countHits messageLower negativeWords;
          total = positiveCount + negativeCount;
          sc = (if total > 0 then (of_nat positiveCount - of_nat negativeCount) / of_nat total else 0)
      in \<lparr> score = sc, positive = positiveCount, negative = negativeCount,
           neutral = (if total = 0 then 1 else 0) \<rparr>)"

text \<open>The spec's words: the number of words of a fixed list that occur in the lowercased message.\<close>

definition hits :: "string \<Rightarrow> string list \<Rightarrow> nat" where
  "hits message ws = length (filter (\<lambda>w. includesStr (toLowerCase message) w) ws)"

section \<open>Errors and conversation history\<close>

text \<open>
  A history entry is read as \<^verbatim>\<open>msg.content || msg\<close>: a bare string stands for itself,
  and so does a message object whose \<^verbatim>\<open>content\<close> is the empty string (the empty string
  is falsy). Calling \<^verbatim>\<open>toLowerCase\<close> on a message object throws a \<^verbatim>\<open>TypeError\<close>,
  as does \<^verbatim>\<open>reduce\<close> on an empty array without an initial value. \<open>LibraryError\<close>
  stands for whatever a call into a library throws.
\<close>

datatype error = TypeError | LibraryError

datatype message = Str string | Doc (content: string)

fun contentOrSelf :: "message \<Rightarrow> message" where
  "contentOrSelf (Str s) = Str s"
| "contentOrSelf (Doc c) = (if c = [] then Doc c else Str c)"

fun asString :: "message \<Rightarrow> error + string" where
  "asString (Str s) = Inr s"
| "asString (Doc c) = Inl TypeError"

text \<open>\<^verbatim>\<open>xs.forEach(f)\<close> with a body that may throw: the first throw ends the loop.\<close>

fun forEachE :: "('a \<Rightarrow> 's \<Rightarrow> error + 's) \<Rightarrow> 'a list \<Rightarrow> 's \<Rightarrow> error + 's" where
  "forEachE f [] st = Inr st"
| "forEachE f (x # xs) st = (case f x st of Inl e \<Rightarrow> Inl e | Inr st' \<Rightarrow> forEachE f xs st')"

text \<open>\<^verbatim>\<open>xs.slice(-n)\<close>: the last \<open>n\<close> elements, all of them when there are fewer.\<close>

definition sliceLast :: "nat \<Rightarrow> 'a list \<Rightarrow> 'a list" where
  "sliceLast n xs = drop (length xs - n) xs"

text \<open>\<^verbatim>\<open>xs.reduce(f)\<close> without an initial value.\<close>

fun reduce :: "('a \<Rightarrow> 'a \<Rightarrow> 'a) \<Rightarrow> 'a list \<Rightarrow> error + 'a" where
  "reduce f [] = Inl TypeError"
| "reduce f (x # xs) = Inr (foldl f x xs)"

section \<open>Semantic category matcher\<close>

record category_data =
  keywordList :: "string list"
  contextText :: string

definition semanticCategories :: "(string \<times> category_data) list" where
  "semanticCategories =
    [(''loan_inquiry'', \<lparr> keywordList = [''loan'', ''borrow'', ''money'', ''amount'', ''how much'',
         ''get loan'', ''need money'', ''financial help''],
       contextText = ''user wants to know about loan options and amounts'' \<rparr>),
     (''application_process'', \<lparr> keywordList = [''apply'', ''application'', ''process'',
         ''how to apply'', ''steps'', ''procedure'', ''apply for loan''],
       contextText = ''user wants to understand the application process'' \<rparr>),
     (''eligibility'', \<lparr> keywordList = [''eligible'', ''qualify'', ''requirements'', ''criteria'',
         ''can i get'', ''am i eligible'', ''qualification''],
       contextText = ''user wants to check their eligibility'' \<rparr>),
     (''documents'', \<lparr> keywordList = [''documents'', ''papers'', ''kyc'', ''pan'', ''aadhaar'',
         ''bank statement'', ''salary slip'', ''proof''],
       contextText = ''user wants to know about required documents'' \<rparr>),
     (''repayment'', \<lparr> keywordList = [''repay'', ''payment'', ''emi'', ''installment'', ''due date'',
         ''pay back'', ''repayment''],
       contextText = ''user wants to understand repayment terms'' \<rparr>),
     (''interest_charges'', \<lparr> keywordList = [''interest'', ''rate'', ''charges'', ''fees'', ''cost'',
         ''how much interest'', ''charges''],
       contextText = ''user wants to know about interest rates and charges'' \<rparr>),
     (''company_info'', \<lparr> keywordList = [''company'', ''fundobaba'', ''about'', ''what is'',
         ''legitimate'', ''safe'', ''trust''],
       contextText = ''user wants to know about the company'' \<rparr>),
     (''support_contact'', \<lparr> keywordList = [''contact'', ''support'', ''help'', ''phone'', ''email'',
         ''customer service'', ''human''],
       contextText = ''user wants to contact support'' \<rparr>),
     (''technical_issues'', \<lparr> keywordList = [''problem'', ''issue'', ''error'', ''not working'',
         ''technical'', ''bug'', ''trouble''],
       contextText = ''user is facing technical issues'' \<rparr>),
     (''loan_status'', \<lparr> keywordList = [''status'', ''track'', ''check'', ''approved'', ''disbursed'',
         ''pending'', ''rejected''],
       contextText = ''user wants to check loan status'' \<rparr>)]"

definition relatedTopicsTable :: "(string \<times> string list) list" where
  "relatedTopicsTable =
    [(''loan_inquiry'', [''application_process'', ''eligibility'', ''interest_charges'']),
     (''application_process'', [''documents'', ''eligibility'', ''loan_inquiry'']),
     (''documents'', [''kyc'', ''application_process'', ''eligibility'']),
     (''repayment'', [''interest_charges'', ''loan_inquiry'']),
     (''interest_charges'', [''loan_inquiry'', ''repayment'']),
     (''company_info'', [''support_contact'', ''loan_inquiry''])]"

text \<open>\<^verbatim>\<open>relatedTopics[currentCategory] || []\<close>; the history argument is not read.\<close>

definition findRelatedTopics :: "string \<Rightarrow> message list \<Rightarrow> string list" where
  "findRelatedTopics message conversationHistory =
     (let messageLower = toLowerCase message;
          inc = includesStr messageLower;
          currentCategory =
            (if inc ''loan'' \<or> inc ''borrow'' \<or> inc ''money'' then Some ''loan_inquiry''
             else if inc ''apply'' \<or> inc ''process'' \<or> inc ''steps'' then Some ''application_process''
             else if inc ''documents'' \<or> inc ''papers'' \<or> inc ''kyc'' then Some ''documents''
             else if inc ''repay'' \<or> inc ''payment'' \<or> inc ''emi'' then Some ''repayment''
             else if inc ''interest'' \<or> inc ''rate'' \<or> inc ''charges'' then Some ''interest_charges''
             else if inc ''company'' \<or> inc ''fundobaba'' \<or> inc ''about'' then Some ''company_info''
             else None)
      in case currentCategory of None \<Rightarrow> []
         | Some c \<Rightarrow> (case map_of relatedTopicsTable c of None \<Rightarrow> [] | Some ts \<Rightarrow> ts))"

record semantic_context =
  category :: "string option"
  confidence :: rat
  contextInfo :: string
  relatedTopics :: "string list"

text \<open>The score of one category: keyword hits, normalised by the number of keywords.\<close>

definition categoryScore :: "string \<Rightarrow> category_data \<Rightarrow> rat" where
  "categoryScore messageLower data =
     of_nat (countHits messageLower (keywordList data)) / of_nat (length (keywordList data))"

definition bestCategoryStep ::
  "string \<Rightarrow> string \<times> category_data \<Rightarrow> string option \<times> rat \<Rightarrow> string option \<times> rat" where
  "bestCategoryStep messageLower entry best =
     (let sc = categoryScore messageLower (snd entry)
      in if sc > snd best then (Some (fst entry), sc) else best)"

text \<open>
  \<^verbatim>\<open>semanticCategories[bestCategory].context\<close> throws a \<^verbatim>\<open>TypeError\<close> when
  \<^verbatim>\<open>bestCategory\<close> is not a key of the table.
\<close>

definition analyzeSemanticContext :: "string \<Rightarrow> message list \<Rightarrow> error + semantic_context" where
  "analyzeSemanticContext message conversationHistory =
     (let messageLower = toLowerCase message;
          best = fold (bestCategoryStep messageLower) semanticCategories (None, 0)
      in case (case fst best of None \<Rightarrow> Inr ''general inquiry''
               | Some c \<Rightarrow> (case map_of semanticCategories c of None \<Rightarrow> Inl TypeError
                            | Some data \<Rightarrow> Inr (contextText data))) of
           Inl e \<Rightarrow> Inl e
         | Inr ctx \<Rightarrow> Inr \<lparr> category = fst best, confidence = snd best, contextInfo = ctx,
                           relatedTopics = findRelatedTopics message conversationHistory \<rparr>)"


section \<open>Conversation topic\<close>

text \<open>Decimal rendering of a count, as \<^verbatim>\<open>String(n)\<close> gives it.\<close>

definition digitChar :: "nat \<Rightarrow> char" where
  "digitChar d = char_of (48 + d)"

function showNat :: "nat \<Rightarrow> string" where
  "showNat n = (if n < 10 then [digitChar n] else showNat (n div 10) @ [digitChar (n mod 10)])"
  by pat_completeness auto
termination
  by (relation "measure id") auto

declare showNat.simps [simp del]

text \<open>
  \<^verbatim>\<open>topics[key] = (topics[key] || 0) + 1\<close> on an object kept as its list of entries:
  an existing key keeps its place, a new key goes to the end.
\<close>

fun bumpTopic :: "string \<Rightarrow> (string \<times> nat) list \<Rightarrow> (string \<times> nat) list" where
  "bumpTopic k [] = [(k, 1)]"
| "bumpTopic k ((k', n) # rest) = (if k = k' then (k', n + 1) # rest else (k', n) # bumpTopic k rest)"

definition initialTopics :: "(string \<times> nat) list" where
  "initialTopics = [(''loan_inquiry'', 0), (''application'', 0), (''documents'', 0),
     (''repayment'', 0), (''support'', 0), (''technical'', 0)]"

text \<open>
  The reducer is \<^verbatim>\<open>(a, b) => topics[a] > topics[b] ? a : b\<close>, where \<^verbatim>\<open>a\<close> and
  \<^verbatim>\<open>b\<close> are entries \<^verbatim>\<open>[key, count]\<close>. An array used as a property name is converted
  to the string \<^verbatim>\<open>key,count\<close>, and a comparison with \<^verbatim>\<open>undefined\<close> is false.
\<close>

definition entryKey :: "string \<times> nat \<Rightarrow> string" where
  "entryKey e = fst e @ '','' @ showNat (snd e)"

definition gtNum :: "nat option \<Rightarrow> nat option \<Rightarrow> bool" where
  "gtNum x y = (case (x, y) of (Some a, Some b) \<Rightarrow> a > b | _ \<Rightarrow> False)"

definition topicReducer :: "(string \<times> nat) list \<Rightarrow> string \<times> nat \<Rightarrow> string \<times> nat \<Rightarrow> string \<times> nat" where
  "topicReducer topics a b =
     (if gtNum (map_of topics (entryKey a)) (map_of topics (entryKey b)) then a else b)"

datatype topic_result =
  NewConversation
  | Topic (primary: "string \<times> nat") (distribution: "(string \<times> nat) list") (consistency: rat)

definition topicStep :: "message \<Rightarrow> (string \<times> nat) list \<Rightarrow> error + (string \<times> nat) list" where
  "topicStep msg topics =
     (case asString (contentOrSelf msg) of Inl e \<Rightarrow> Inl e
      | Inr contentStr \<Rightarrow>
          (case analyzeSemanticContext contentStr [] of Inl e \<Rightarrow> Inl e
           | Inr ctx \<Rightarrow>
               (case category ctx of None \<Rightarrow> Inr topics | Some c \<Rightarrow> Inr (bumpTopic c topics))))"

definition identifyConversationTopic :: "message list \<Rightarrow> error + topic_result" where
  "identifyConversationTopic conversationHistory =
     (if length conversationHistory = 0 then Inr NewConversation
      else
        let recentMessages = sliceLast 5 conversationHistory
        in case forEachE topicStep recentMessages initialTopics of Inl e \<Rightarrow> Inl e
           | Inr topics \<Rightarrow>
               (case reduce (topicReducer topics) topics of Inl e \<Rightarrow> Inl e
                | Inr mainTopic \<Rightarrow>
                    Inr (Topic mainTopic topics
                          (of_nat (Max (set (map snd topics))) / of_nat (length recentMessages)))))"

text \<open>The names that can become keys of the topic counters.\<close>

definition topicNames :: "string set" where
  "topicNames = fst ` set initialTopics \<union> fst ` set semanticCategories"

section \<open>User journey stage\<close>

definition journeyStages :: "(string \<times> string list) list" where
  "journeyStages =
    [(''awareness'', [''hello'', ''hi'', ''what is'', ''about'', ''company'']),
     (''interest'', [''loan'', ''amount'', ''how much'', ''interest'', ''charges'']),
     (''consideration'', [''apply'', ''process'', ''documents'', ''eligibility'', ''requirements'']),
     (''application'', [''apply now'', ''start application'', ''begin process'']),
     (''post_application'', [''status'', ''track'', ''approved'', ''disbursed'']),
     (''support'', [''help'', ''contact'', ''problem'', ''issue''])]"

text \<open>
  \<^verbatim>\<open>determineUserStage\<close> takes the stage table as an argument; an object's keys are
  distinct, and so are the keys of the list that stands for it. One message against one
  stage's keywords: each keyword found adds one to the stage's score.
\<close>

definition stageMessageStep :: "string list \<Rightarrow> message \<Rightarrow> nat \<Rightarrow> error + nat" where
  "stageMessageStep kws msg sc =
     (case asString (contentOrSelf msg) of Inl e \<Rightarrow> Inl e
      | Inr c \<Rightarrow> Inr (fold (\<lambda>keyword n. if includesStr (toLowerCase c) keyword then n + 1 else n) kws sc))"

definition stageStep ::
  "message list \<Rightarrow> string \<times> string list \<Rightarrow> (string \<times> nat) list \<Rightarrow> error + (string \<times> nat) list" where
  "stageStep recentMessages entry stageScores =
     (case forEachE (stageMessageStep (snd entry)) recentMessages 0 of Inl e \<Rightarrow> Inl e
      | Inr sc \<Rightarrow> Inr (stageScores @ [(fst entry, sc)]))"

definition scoreOf :: "(string \<times> nat) list \<Rightarrow> string \<Rightarrow> nat option" where
  "scoreOf stageScores k = map_of stageScores k"

definition stageReducer :: "(string \<times> nat) list \<Rightarrow> string \<times> nat \<Rightarrow> string \<times> nat \<Rightarrow> string \<times> nat" where
  "stageReducer stageScores a b =
     (if gtNum (scoreOf stageScores (fst a)) (scoreOf stageScores (fst b)) then a else b)"

definition determineUserStage :: "message list \<Rightarrow> (string \<times> string list) list \<Rightarrow> error + string" where
  "determineUserStage conversationHistory stages =
     (let recentMessages = sliceLast 3 conversationHistory
      in case forEachE (stageStep recentMessages) stages [] of Inl e \<Rightarrow> Inl e
         | Inr stageScores \<Rightarrow>
             (case reduce (stageReducer stageScores) stageScores of Inl e \<Rightarrow> Inl e
              | Inr best \<Rightarrow> Inr (fst best)))"

text \<open>
  The spec's words: the keyword-occurrence count of a stage over the last three messages
  is the number of pairs of a message and a keyword of the stage with the keyword in the
  lowercased message.
\<close>

definition stageCount :: "string list \<Rightarrow> string list \<Rightarrow> nat" where
  "stageCount contents kws = (\<Sum>c \<leftarrow> contents. hits c kws)"

text \<open>The string a history entry carries: the bare string, or the object's content.\<close>

fun textOf :: "message \<Rightarrow> string" where
  "textOf (Str s) = s"
| "textOf (Doc c) = c"

definition recentCount :: "message list \<Rightarrow> nat \<Rightarrow> nat" where
  "recentCount conversationHistory j =
     stageCount (map textOf (sliceLast 3 conversationHistory)) (snd (journeyStages ! j))"

section \<open>Intent recognition\<close>

definition intentTrainingData :: "(string \<times> string list) list" where
  "intentTrainingData =
    [(''loan_inquiry'', [''how much loan can i get'', ''what is the maximum loan amount'',
        ''loan amount range'', ''borrow money'', ''get loan'', ''loan amount'']),
     (''application_process'', [''how to apply'', ''application process'', ''apply for loan'',
        ''loan application steps'', ''how do i apply'', ''application procedure'']),
     (''eligibility'', [''am i eligible'', ''eligibility criteria'', ''loan requirements'',
        ''qualify for loan'', ''can i get loan'', ''loan criteria'']),
     (''repayment'', [''how to repay'', ''repayment process'', ''emi options'', ''payment methods'',
        ''repay loan'', ''due date'']),
     (''contact_support'', [''contact support'', ''help me'', ''customer service'',
        ''talk to human'', ''phone number'', ''email support'']),
     (''greeting'', [''hello'', ''hi'', ''hey'', ''good morning'', ''good evening'', ''namaste'']),
     (''gratitude'', [''thank you'', ''thanks'', ''appreciate it'', ''thank you so much'']),
     (''farewell'', [''bye'', ''goodbye'', ''see you'', ''talk later''])]"

text \<open>
  The constructor adds every phrase to the TF-IDF index as one document, keyed by its
  intent, in the order of the table.
\<close>

definition tfidfDocuments :: "(string \<times> string) list" where
  "tfidfDocuments =
     concat (map (\<lambda>entry. map (\<lambda>phrase. (phrase, fst entry)) (snd entry)) intentTrainingData)"

text \<open>
  \<^verbatim>\<open>scores[key] = v\<close> on an object kept as its list of entries: an existing key keeps
  its place, a new key goes to the end.
\<close>

fun setScore :: "string \<Rightarrow> rat \<Rightarrow> (string \<times> rat) list \<Rightarrow> (string \<times> rat) list" where
  "setScore k v [] = [(k, v)]"
| "setScore k v ((k', w) # rest) = (if k = k' then (k', v) # rest else (k', w) # setScore k v rest)"

text \<open>
  The callback of \<^verbatim>\<open>tfidfs\<close>:
  \<^verbatim>\<open>if (!scores[key]) scores[key] = 0; scores[key] += measure\<close>.
  A missing score and a score of 0 are both falsy and both become 0 before the addition.
\<close>

definition scoreStep :: "string \<Rightarrow> rat \<Rightarrow> (string \<times> rat) list \<Rightarrow> (string \<times> rat) list" where
  "scoreStep key measureVal scores =
     (let current = (case map_of scores key of None \<Rightarrow> 0 | Some v \<Rightarrow> if v = 0 then 0 else v)
      in setScore key (current + measureVal) scores)"

record intent_result =
  intent :: string
  intentConfidence :: rat
  intentScores :: "(string \<times> rat) list"

definition bestIntentStep :: "string \<times> rat \<Rightarrow> string \<times> rat \<Rightarrow> string \<times> rat" where
  "bestIntentStep entry best = (if snd entry > snd best then (fst entry, snd entry) else best)"

text \<open>
  The TF-IDF measure belongs to the library \<^verbatim>\<open>natural\<close>: \<open>tfidf terms i\<close> stands for
  the measure that \<^verbatim>\<open>tfidfs\<close> reports for the terms and document \<open>i\<close>. The callback is
  called once per document, in the order the documents were added.
\<close>

definition recognizeIntent :: "(string \<Rightarrow> nat \<Rightarrow> rat) \<Rightarrow> string \<Rightarrow> intent_result" where
  "recognizeIntent tfidf message =
     (let messageLower = toLowerCase message;
          scores = fold (\<lambda>i scs. scoreStep (snd (tfidfDocuments ! i)) (tfidf messageLower i) scs)
                     [0..<length tfidfDocuments] [];
          best = fold bestIntentStep scores (''general_inquiry'', 0)
      in \<lparr> intent = fst best, intentConfidence = snd best, intentScores = scores \<rparr>)"

text \<open>
  The spec's words: the aggregate score of an intent is the sum of the measures of the
  documents keyed by it.
\<close>

definition aggregateScore :: "(string \<Rightarrow> nat \<Rightarrow> rat) \<Rightarrow> string \<Rightarrow> string \<Rightarrow> rat" where
  "aggregateScore tfidf message k =
     (\<Sum>i\<leftarrow>[0..<length tfidfDocuments].
        if snd (tfidfDocuments ! i) = k then tfidf (toLowerCase message) i else 0)"

definition intentNames :: "string list" where
  "intentNames = map fst intentTrainingData"

section \<open>Response scoring and selection\<close>

text \<open>
  The two weight tables of \<^verbatim>\<open>calculateResponseScore\<close>. They are plain objects, so a
  lookup \<^verbatim>\<open>importantKeywords[word]\<close> also finds what every object inherits: of the
  inherited names only \<^verbatim>\<open>constructor\<close> and \<^verbatim>\<open>__proto__\<close> are lower-case, and a
  pattern word equal to one of them makes the score \<^verbatim>\<open>NaN\<close>. The embedding is of the
  scoring of patterns with no such word (\<open>ownWords\<close>); there a lookup is a lookup in the
  table, and every weight of the tables is non-zero, hence truthy.
\<close>

definition commonWords :: "(string \<times> rat) list" where
  "commonWords =
    [(''the'', 1 / 10), (''a'', 1 / 10), (''an'', 1 / 10), (''and'', 1 / 10),
     (''or'', 1 / 10), (''but'', 1 / 10), (''in'', 1 / 10), (''on'', 1 / 10),
     (''at'', 1 / 10), (''to'', 1 / 10), (''for'', 1 / 10), (''of'', 1 / 10),
     (''with'', 1 / 10), (''by'', 1 / 10), (''is'', 1 / 5), (''are'', 1 / 5),
     (''was'', 1 / 5), (''were'', 1 / 5), (''be'', 1 / 5), (''been'', 1 / 5),
     (''have'', 1 / 5), (''has'', 1 / 5), (''had'', 1 / 5), (''do'', 1 / 5),
     (''does'', 1 / 5), (''did'', 1 / 5), (''will'', 1 / 5), (''would'', 1 / 5),
     (''could'', 1 / 5), (''should'', 1 / 5), (''may'', 1 / 5), (''might'', 1 / 5),
     (''can'', 1 / 5), (''this'', 3 / 10), (''that'', 3 / 10), (''these'', 3 / 10),
     (''those'', 3 / 10), (''i'', 3 / 10), (''you'', 3 / 10), (''he'', 3 / 10),
     (''she'', 3 / 10), (''it'', 3 / 10), (''we'', 3 / 10), (''they'', 3 / 10),
     (''me'', 3 / 10), (''him'', 3 / 10), (''her'', 3 / 10), (''us'', 3 / 10),
     (''them'', 3 / 10), (''what'', 2 / 5), (''how'', 2 / 5), (''when'', 2 / 5),
     (''where'', 2 / 5), (''why'', 2 / 5), (''who'', 2 / 5), (''which'', 2 / 5)]"

definition importantKeywords :: "(string \<times> rat) list" where
  "importantKeywords =
    [(''loan'', 2), (''borrow'', 2), (''money'', 2), (''amount'', 2), (''emi'', 2),
     (''installment'', 2), (''apply'', 9 / 5), (''application'', 9 / 5), (''process'', 9 / 5),
     (''steps'', 9 / 5), (''documents'', 9 / 5), (''papers'', 9 / 5), (''kyc'', 9 / 5),
     (''pan'', 9 / 5), (''aadhaar'', 9 / 5), (''bank statement'', 9 / 5), (''repay'', 9 / 5),
     (''payment'', 9 / 5), (''repayment'', 9 / 5), (''pay'', 9 / 5), (''interest'', 9 / 5),
     (''rate'', 9 / 5), (''charges'', 9 / 5), (''fees'', 9 / 5), (''eligible'', 9 / 5),
     (''eligibility'', 9 / 5), (''qualify'', 9 / 5), (''requirements'', 9 / 5),
     (''criteria'', 9 / 5), (''max'', 9 / 5), (''maximum'', 9 / 5), (''highest'', 9 / 5),
     (''min'', 9 / 5), (''minimum'', 9 / 5), (''lowest'', 9 / 5), (''salary'', 9 / 5),
     (''income'', 9 / 5), (''salary requirement'', 9 / 5), (''reloan'', 9 / 5),
     (''another loan'', 9 / 5), (''second loan'', 9 / 5), (''fundobaba'', 3 / 2),
     (''company'', 3 / 2), (''about'', 3 / 2), (''contact'', 3 / 2), (''support'', 3 / 2),
     (''help'', 3 / 2), (''phone'', 3 / 2), (''email'', 3 / 2), (''thank'', 1),
     (''thanks'', 1), (''appreciate'', 1), (''hello'', 4 / 5), (''hi'', 4 / 5),
     (''hey'', 4 / 5), (''good morning'', 4 / 5), (''good evening'', 4 / 5), (''bye'', 4 / 5),
     (''goodbye'', 4 / 5), (''see you'', 4 / 5)]"

definition inheritedName :: "string \<Rightarrow> bool" where
  "inheritedName w = (w = ''constructor'' \<or> w = ''__proto__'')"

definition ownWords :: "string list \<Rightarrow> bool" where
  "ownWords responsePatterns =
     list_all (\<lambda>p. list_all (\<lambda>w. \<not> inheritedName w) (splitWs (toLowerCase p))) responsePatterns"

text \<open>
  The word-match pass, for one pattern word: a word that is one of the message's words
  adds its weight; an important keyword and an unlisted word also count as a keyword.
\<close>

definition exactStep :: "string list \<Rightarrow> string \<Rightarrow> rat \<times> nat \<Rightarrow> rat \<times> nat" where
  "exactStep messageWords word acc =
     (if word \<in> set messageWords
      then (case map_of importantKeywords word of
              Some w \<Rightarrow> (fst acc + w, snd acc + 1)
            | None \<Rightarrow>
               (case map_of commonWords word of
                  Some c \<Rightarrow> (fst acc + c, snd acc)
                | None \<Rightarrow> (fst acc + 1, snd acc + 1)))
      else acc)"

text \<open>
  The partial-match pass, for one pattern word and one message word: when either contains
  the other, an important keyword adds 0.7 of its weight and an unlisted word adds 0.7.
\<close>

definition partialStep :: "string \<Rightarrow> string \<Rightarrow> rat \<Rightarrow> rat" where
  "partialStep word msgWord tot =
     (if includesStr msgWord word \<or> includesStr word msgWord
      then (case map_of importantKeywords word of
              Some w \<Rightarrow> tot + w * (7 / 10)
            | None \<Rightarrow> (if map_of commonWords word = None then tot + 7 / 10 else tot))
      else tot)"

text \<open>The two loops over the pattern words; the second one nests a loop over the message words.\<close>

definition exactPass :: "string list \<Rightarrow> string list \<Rightarrow> rat \<times> nat \<Rightarrow> rat \<times> nat" where
  "exactPass messageWords patternWords start = fold (exactStep messageWords) patternWords start"

definition partialPass :: "string list \<Rightarrow> string list \<Rightarrow> rat \<Rightarrow> rat" where
  "partialPass messageWords patternWords tot =
     fold (\<lambda>word acc. fold (partialStep word) messageWords acc) patternWords tot"

definition questionWords :: "string list" where
  "questionWords = [''what'', ''how'', ''why'', ''when'', ''where'', ''who'', ''which'', ''can'',
     ''could'', ''would'', ''should'']"

record pattern_score =
  pattern :: string
  patternScore :: rat
  totalScore :: rat
  keywordCount :: nat
  index :: nat

definition scorePattern :: "string \<Rightarrow> string \<Rightarrow> nat \<Rightarrow> pattern_score" where
  "scorePattern messageLower pat idx =
     (let start = (if includesStr messageLower (toLowerCase pat) then (3, 1) else (0, 0));
          messageWords = splitWs messageLower;
          patternWords = splitWs (toLowerCase pat);
          exact = exactPass messageWords patternWords start;
          partial = partialPass messageWords patternWords (fst exact);
          tot = (if list_ex (includesStr messageLower) questionWords then partial + 1 / 2 else partial);
          normalizedScore = (if snd exact > 0 then tot / of_nat (snd exact) else tot)
      in \<lparr> pattern = pat, patternScore = normalizedScore, totalScore = tot,
           keywordCount = snd exact, index = idx \<rparr>)"

text \<open>
  \<^verbatim>\<open>scores.sort((a, b) => b.score - a.score)\<close>: descending by score; the sort is stable,
  so patterns of equal score keep the order of the pattern list.
\<close>

definition calculateResponseScore :: "string \<Rightarrow> string list \<Rightarrow> pattern_score list" where
  "calculateResponseScore userMessage responsePatterns =
     (let messageLower = toLowerCase userMessage;
          scores = map (\<lambda>(pat, idx). scorePattern messageLower pat idx)
                     (zip responsePatterns [0..<length responsePatterns])
      in sort_key (\<lambda>s. - patternScore s) scores)"

record best_response =
  matchPattern :: string
  matchScore :: rat
  matchConfidence :: rat
  allScores :: "pattern_score list"

definition selectBestResponse :: "string \<Rightarrow> string list \<Rightarrow> rat \<Rightarrow> best_response option" where
  "selectBestResponse userMessage responsePatterns threshold =
     (case calculateResponseScore userMessage responsePatterns of
        [] \<Rightarrow> None
      | s # rest \<Rightarrow>
          (if patternScore s \<ge> threshold
           then Some \<lparr> matchPattern = pattern s, matchScore = patternScore s,
                        matchConfidence = min (patternScore s / 3) 1, allScores = s # rest \<rparr>
           else None))"

section \<open>Pattern-based response generation\<close>

text \<open>
  The canned texts of \<^verbatim>\<open>generatePatternBasedResponse\<close> in \<^verbatim>\<open>routes/chat.js\<close>, one
  constructor for each distinct text: EMI format, loan range, minimum loan, minimum
  salary, obligation to repay, loan criteria, reloan steps, "You're most welcome",
  "Great! I'm glad that helps", "Perfect! I'm glad I could help", "I'm here to help you",
  and the default "Thank you for your question! ... Could you please be more specific".
\<close>

datatype response =
  EmiResponse | LoanRangeResponse | MinimumLoanResponse | SalaryResponse | RepaymentResponse
  | CriteriaResponse | ReloanResponse | GratitudeResponse | UnderstandingResponse
  | ClosingResponse | HelpResponse | DefaultResponse

definition responsePatternTable :: "(string \<times> response) list" where
  "responsePatternTable =
    [(''emi'', EmiResponse), (''installment'', EmiResponse),
     (''monthly payment'', EmiResponse), (''max loan'', LoanRangeResponse),
     (''maximum loan'', LoanRangeResponse), (''highest loan'', LoanRangeResponse),
     (''loan range'', LoanRangeResponse), (''max amount'', LoanRangeResponse),
     (''maximum amount'', LoanRangeResponse), (''highest amount'', LoanRangeResponse),
     (''min loan'', MinimumLoanResponse), (''minimum loan'', MinimumLoanResponse),
     (''lowest loan'', MinimumLoanResponse), (''min amount'', MinimumLoanResponse),
     (''minimum amount'', MinimumLoanResponse), (''salary'', SalaryResponse),
     (''income'', SalaryResponse), (''minimum salary'', SalaryResponse),
     (''salary requirement'', SalaryResponse), (''income requirement'', SalaryResponse),
     (''dont repay'', RepaymentResponse), (''don't repay'', RepaymentResponse),
     (''not repay'', RepaymentResponse), (''miss payment'', RepaymentResponse),
     (''late payment'', RepaymentResponse), (''default'', RepaymentResponse),
     (''criteria'', CriteriaResponse), (''eligibility criteria'', CriteriaResponse),
     (''loan criteria'', CriteriaResponse), (''requirements'', CriteriaResponse),
     (''qualification'', CriteriaResponse), (''what needed'', CriteriaResponse),
     (''eligible'', CriteriaResponse), (''reloan'', ReloanResponse),
     (''re loan'', ReloanResponse), (''another loan'', ReloanResponse),
     (''second loan'', ReloanResponse), (''next loan'', ReloanResponse),
     (''take another loan'', ReloanResponse), (''how to take reloan'', ReloanResponse),
     (''thank'', GratitudeResponse), (''thank you so much'', GratitudeResponse),
     (''appreciate it'', GratitudeResponse), (''much appreciated'', GratitudeResponse),
     (''thnx'', GratitudeResponse), (''thanks'', GratitudeResponse),
     (''got it'', UnderstandingResponse), (''ok'', UnderstandingResponse),
     (''okay'', UnderstandingResponse), (''alright'', UnderstandingResponse),
     (''understood'', UnderstandingResponse), (''makes sense'', UnderstandingResponse),
     (''i see'', UnderstandingResponse), (''gotcha'', UnderstandingResponse),
     (''cool'', UnderstandingResponse), (''sounds good'', UnderstandingResponse),
     (''noted'', UnderstandingResponse), (''copy that'', UnderstandingResponse),
     (''thats all'', ClosingResponse), (''that's all'', ClosingResponse),
     (''no further questions'', ClosingResponse), (''that helps'', ClosingResponse),
     (''will check'', ClosingResponse), (''will try that'', ClosingResponse),
     (''ill get back'', ClosingResponse), (''i'll get back'', ClosingResponse),
     (''talk later'', ClosingResponse), (''help me'', HelpResponse), (''help'', HelpResponse),
     (''assist'', HelpResponse), (''support'', HelpResponse)]"

text \<open>
  \<^verbatim>\<open>responsePatterns.find(rp => rp.pattern === bestMatch.pattern).response\<close> throws a
  \<^verbatim>\<open>TypeError\<close> when no entry is found.
\<close>

definition generatePatternBasedResponse :: "string \<Rightarrow> error + response" where
  "generatePatternBasedResponse userMessage =
     (let patterns = map fst responsePatternTable
      in case selectBestResponse userMessage patterns (3 / 10) of
           Some bestMatch \<Rightarrow>
             (case find (\<lambda>rp. fst rp = matchPattern bestMatch) responsePatternTable of
                None \<Rightarrow> Inl TypeError
              | Some selectedResponse \<Rightarrow> Inr (snd selectedResponse))
         | None \<Rightarrow> Inr DefaultResponse)"

text \<open>
  What one pattern word adds in each pass, and the message words that match a pattern word
  partially (either word contains the other).
\<close>

definition exactWeight :: "string list \<Rightarrow> string \<Rightarrow> rat" where
  "exactWeight messageWords word = fst (exactStep messageWords word (0, 0))"

definition partialWeight :: "string \<Rightarrow> string \<Rightarrow> rat" where
  "partialWeight word msgWord = partialStep word msgWord 0"


text \<open>The total after both passes over the pattern words, starting from \<open>start\<close>.\<close>

definition wordTotal :: "string list \<Rightarrow> string list \<Rightarrow> rat \<times> nat \<Rightarrow> rat" where
  "wordTotal messageWords patternWords start =
     partialPass messageWords patternWords (fst (exactPass messageWords patternWords start))"

section \<open>Entity extraction\<close>




text \<open>\<^verbatim>\<open>try { body } catch (error) { handler }\<close> and sequencing of steps that may throw.\<close>

definition tryCatch :: "error + 'a \<Rightarrow> (error \<Rightarrow> error + 'a) \<Rightarrow> error + 'a" where
  "tryCatch body handler = (case body of Inl e \<Rightarrow> handler e | Inr v \<Rightarrow> Inr v)"

definition bindE :: "error + 'a \<Rightarrow> ('a \<Rightarrow> error + 'b) \<Rightarrow> error + 'b" where
  "bindE m f = (case m of Inl e \<Rightarrow> Inl e | Inr v \<Rightarrow> f v)"
















section \<open>Counting loops and best-so-far loops\<close>

lemma fold_count_filter:
  "fold (\<lambda>w n. if P w then n + 1 else n) ws (k::nat) = k + length (filter P ws)"
  by (induction ws arbitrary: k) auto

lemma countHits_filter: "countHits ml ws = length (filter (includesStr ml) ws)"
  by (simp add: countHits_def fold_count_filter)

lemma countHits_hits: "countHits (toLowerCase message) ws = hits message ws"
  by (simp add: countHits_filter hits_def)

text \<open>
  Claim C8. For every message, the fallback sentiment score is
  (positiveHits - negativeHits) / (positiveHits + negativeHits) over the two fixed word
  lists, and 0 when there are no hits; the score of "thank you so much, this is great" is
  strictly positive and the score of "this is terrible and useless" is strictly negative.
\<close>

theorem fallbackSentiment_score:
  "score (fallbackSentimentAnalysis message) =
     (if hits message positiveWords + hits message negativeWords = 0 then 0
      else (of_nat (hits message positiveWords) - of_nat (hits message negativeWords))
             / of_nat (hits message positiveWords + hits message negativeWords))
   \<and> score (fallbackSentimentAnalysis ''thank you so much, this is great'') > 0
   \<and> score (fallbackSentimentAnalysis ''this is terrible and useless'') < 0"
proof -
  have general: "score (fallbackSentimentAnalysis message) =
     (if hits message positiveWords + hits message negativeWords = 0 then 0
      else (of_nat (hits message positiveWords) - of_nat (hits message negativeWords))
             / of_nat (hits message positiveWords + hits message negativeWords))"
    by (simp add: fallbackSentimentAnalysis_def Let_def countHits_hits)
  have pos: "score (fallbackSentimentAnalysis ''thank you so much, this is great'') = 1"
    by code_simp
  have neg: "score (fallbackSentimentAnalysis ''this is terrible and useless'') = - 1"
    by code_simp
  show ?thesis using general pos neg by simp
qed

lemma best_fold:
  fixes f :: "'a \<Rightarrow> rat"
  assumes "fold (\<lambda>x best. if f x > snd best then (g x, f x) else best) xs (b0, s0) = (b, s)"
  shows "((\<forall>x\<in>set xs. f x \<le> s0) \<and> b = b0 \<and> s = s0) \<or>
         (\<exists>ys x zs. xs = ys @ x # zs \<and> b = g x \<and> s = f x \<and> s0 < f x \<and>
            (\<forall>y\<in>set ys. f y < f x) \<and> (\<forall>z\<in>set zs. f z \<le> f x))"
  using assms
proof (induction xs arbitrary: b0 s0)
  case Nil
  then show ?case by simp
next
  case (Cons a xs)
  show ?case
  proof (cases "f a > s0")
    case True
    with Cons.prems have run: "fold (\<lambda>x best. if f x > snd best then (g x, f x) else best) xs (g a, f a) = (b, s)"
      by simp
    from Cons.IH [OF run] show ?thesis
    proof
      assume "(\<forall>x\<in>set xs. f x \<le> f a) \<and> b = g a \<and> s = f a"
      with True have "a # xs = [] @ a # xs \<and> b = g a \<and> s = f a \<and> s0 < f a \<and>
            (\<forall>y\<in>set []. f y < f a) \<and> (\<forall>z\<in>set xs. f z \<le> f a)" by simp
      then show ?thesis by blast
    next
      assume "\<exists>ys x zs. xs = ys @ x # zs \<and> b = g x \<and> s = f x \<and> f a < f x \<and>
            (\<forall>y\<in>set ys. f y < f x) \<and> (\<forall>z\<in>set zs. f z \<le> f x)"
      then obtain ys x zs where h: "xs = ys @ x # zs" "b = g x" "s = f x" "f a < f x"
            "\<forall>y\<in>set ys. f y < f x" "\<forall>z\<in>set zs. f z \<le> f x" by blast
      with True have "a # xs = (a # ys) @ x # zs \<and> b = g x \<and> s = f x \<and> s0 < f x \<and>
            (\<forall>y\<in>set (a # ys). f y < f x) \<and> (\<forall>z\<in>set zs. f z \<le> f x)" by simp
      then show ?thesis by blast
    qed
  next
    case False
    with Cons.prems have run: "fold (\<lambda>x best. if f x > snd best then (g x, f x) else best) xs (b0, s0) = (b, s)"
      by simp
    from Cons.IH [OF run] show ?thesis
    proof
      assume "(\<forall>x\<in>set xs. f x \<le> s0) \<and> b = b0 \<and> s = s0"
      with False show ?thesis by simp
    next
      assume "\<exists>ys x zs. xs = ys @ x # zs \<and> b = g x \<and> s = f x \<and> s0 < f x \<and>
            (\<forall>y\<in>set ys. f y < f x) \<and> (\<forall>z\<in>set zs. f z \<le> f x)"
      then obtain ys x zs where h: "xs = ys @ x # zs" "b = g x" "s = f x" "s0 < f x"
            "\<forall>y\<in>set ys. f y < f x" "\<forall>z\<in>set zs. f z \<le> f x" by blast
      with False have "a # xs = (a # ys) @ x # zs \<and> b = g x \<and> s = f x \<and> s0 < f x \<and>
            (\<forall>y\<in>set (a # ys). f y < f x) \<and> (\<forall>z\<in>set zs. f z \<le> f x)" by simp
      then show ?thesis by blast
    qed
  qed
qed

lemma last_best_foldl:
  fixes sc :: "'a \<Rightarrow> nat"
  assumes "\<forall>a\<in>set (x # xs). \<forall>b\<in>set (x # xs). f a b = (if sc a > sc b then a else b)"
  shows "\<exists>ys zs. x # xs = ys @ foldl f x xs # zs \<and>
           (\<forall>y\<in>set ys. sc y \<le> sc (foldl f x xs)) \<and> (\<forall>z\<in>set zs. sc z < sc (foldl f x xs))"
  using assms
proof (induction xs rule: rev_induct)
  case Nil
  show ?case by (intro exI [of _ "[]"]) simp
next
  case (snoc y xs)
  let ?r = "foldl f x xs"
  from snoc.prems have "\<forall>a\<in>set (x # xs). \<forall>b\<in>set (x # xs). f a b = (if sc a > sc b then a else b)"
    by simp
  from snoc.IH [OF this] obtain ys zs where h: "x # xs = ys @ ?r # zs"
     "\<forall>y\<in>set ys. sc y \<le> sc ?r" "\<forall>z\<in>set zs. sc z < sc ?r" by blast
  from h(1) have rin: "?r \<in> set (x # xs)" by (metis in_set_conv_decomp)
  then have rin': "?r \<in> set (x # xs @ [y])" by auto
  have yin: "y \<in> set (x # xs @ [y])" by simp
  from snoc.prems rin' yin have step: "f ?r y = (if sc ?r > sc y then ?r else y)" by blast
  show ?case
  proof (cases "sc ?r > sc y")
    case True
    with step have "foldl f x (xs @ [y]) = ?r" by simp
    moreover from h True have "x # xs @ [y] = ys @ ?r # (zs @ [y]) \<and>
        (\<forall>v\<in>set ys. sc v \<le> sc ?r) \<and> (\<forall>z\<in>set (zs @ [y]). sc z < sc ?r)" by auto
    ultimately show ?thesis by metis
  next
    case False
    with step have e: "foldl f x (xs @ [y]) = y" by simp
    from h False have "\<forall>v\<in>set (x # xs). sc v \<le> sc y" by (metis (no_types, lifting) Un_iff le_trans less_imp_le_nat linorder_not_less set_ConsD set_append order_refl)
    then have "x # xs @ [y] = (x # xs) @ y # [] \<and> (\<forall>v\<in>set (x # xs). sc v \<le> sc y) \<and> (\<forall>z\<in>set []. sc z < sc y)"
      by simp
    with e show ?thesis by metis
  qed
qed

section \<open>Semantic category matcher: the best category\<close>








section \<open>User journey stage and conversation topic\<close>

lemma asString_contentOrSelf:
  "asString (contentOrSelf m) = (if m = Doc [] then Inl TypeError else Inr (textOf m))"
  by (cases m) auto

lemma stageMessageStep_readable:
  "m \<noteq> Doc [] \<Longrightarrow> stageMessageStep kws m sc = Inr (sc + hits (textOf m) kws)"
  by (simp add: stageMessageStep_def asString_contentOrSelf fold_count_filter hits_def)

lemma stageMessageStep_unreadable: "stageMessageStep kws (Doc []) sc = Inl TypeError"
  by (simp add: stageMessageStep_def)

lemma stage_messages_readable:
  "Doc [] \<notin> set msgs \<Longrightarrow>
   forEachE (stageMessageStep kws) msgs sc = Inr (sc + stageCount (map textOf msgs) kws)"
  by (induction msgs arbitrary: sc) (auto simp: stageMessageStep_readable stageCount_def)

lemma stage_messages_unreadable:
  "Doc [] \<in> set msgs \<Longrightarrow> forEachE (stageMessageStep kws) msgs sc = Inl TypeError"
proof (induction msgs arbitrary: sc)
  case Nil
  then show ?case by simp
next
  case (Cons m msgs)
  show ?case
  proof (cases "m = Doc []")
    case True
    then show ?thesis by (simp add: stageMessageStep_unreadable)
  next
    case False
    with Cons.prems have "Doc [] \<in> set msgs" by simp
    with False Cons.IH show ?thesis by (simp add: stageMessageStep_readable)
  qed
qed

lemma stages_readable:
  "Doc [] \<notin> set msgs \<Longrightarrow>
   forEachE (stageStep msgs) stages acc =
     Inr (acc @ map (\<lambda>e. (fst e, stageCount (map textOf msgs) (snd e))) stages)"
  by (induction stages arbitrary: acc) (auto simp: stageStep_def stage_messages_readable)

lemma stages_unreadable:
  "Doc [] \<in> set msgs \<Longrightarrow> stages \<noteq> [] \<Longrightarrow> forEachE (stageStep msgs) stages acc = Inl TypeError"
  by (cases stages) (auto simp: stageStep_def stage_messages_unreadable)

lemma journeyStages_distinct: "distinct (map fst journeyStages)"
  by (simp add: journeyStages_def)

lemma journeyStages_length: "length journeyStages = 6"
  by (simp add: journeyStages_def)

lemma gtNum_Some: "gtNum (Some a) (Some b) = (a > b)"
  by (simp add: gtNum_def)

lemma determineUserStage_empty_content:
  assumes "Doc [] \<in> set (sliceLast 3 h)"
  shows "determineUserStage h journeyStages = Inl TypeError"
proof -
  have "journeyStages \<noteq> []" using journeyStages_length by auto
  with assms show ?thesis by (simp add: determineUserStage_def stages_unreadable)
qed

text \<open>
  Claim C7, as amended. For every conversation history whose last 3 messages are bare
  strings or objects with non-empty content, determineUserStage returns the stage of the
  fixed table whose keyword list has the highest total keyword-occurrence count over the
  last 3 messages, and every stage later in the table has a strictly smaller count: a tie
  goes to the stage iterated later.
\<close>

theorem determineUserStage_last_best:
  assumes ok: "Doc [] \<notin> set (sliceLast 3 h)"
  shows "\<exists>i<length journeyStages.
         determineUserStage h journeyStages = Inr (fst (journeyStages ! i)) \<and>
         (\<forall>j<length journeyStages. recentCount h j \<le> recentCount h i) \<and>
         (\<forall>j<length journeyStages. i < j \<longrightarrow> recentCount h j < recentCount h i)"
proof -
  let ?n = "length journeyStages"
  define scores where
    "scores = map (\<lambda>e. (fst e, stageCount (map textOf (sliceLast 3 h)) (snd e))) journeyStages"
  have len: "length scores = ?n" by (simp add: scores_def)
  have nth: "scores ! j = (fst (journeyStages ! j), recentCount h j)" if "j < ?n" for j
    using that by (simp add: scores_def recentCount_def)
  have "map fst scores = map fst journeyStages" by (simp add: scores_def comp_def)
  then have dist: "distinct (map fst scores)" using journeyStages_distinct by simp
  have lookup: "scoreOf scores (fst a) = Some (snd a)" if "a \<in> set scores" for a
    unfolding scoreOf_def using map_of_is_SomeI [OF dist, of "fst a" "snd a"] that by simp
  obtain x xs where sx: "scores = x # xs"
    using journeyStages_length len by (cases scores) auto
  have red: "\<forall>a\<in>set (x # xs). \<forall>b\<in>set (x # xs).
      stageReducer scores a b = (if snd a > snd b then a else b)"
  proof (intro ballI)
    fix a b assume "a \<in> set (x # xs)" and "b \<in> set (x # xs)"
    then have a: "a \<in> set scores" and b: "b \<in> set scores" by (simp_all only: sx)
    show "stageReducer scores a b = (if snd a > snd b then a else b)"
      unfolding stageReducer_def lookup [OF a] lookup [OF b] gtNum_Some ..
  qed
  define r where "r = foldl (stageReducer scores) x xs"
  from last_best_foldl [OF red] obtain ys zs where split: "x # xs = ys @ r # zs"
    and before: "\<forall>y\<in>set ys. snd y \<le> snd r" and after: "\<forall>z\<in>set zs. snd z < snd r"
    unfolding r_def by blast
  let ?i = "length ys"
  from split sx have sc_split: "scores = ys @ r # zs" by simp
  have i: "?i < ?n" using len by (simp add: sc_split)
  have ri: "scores ! ?i = r" by (simp add: sc_split)
  with nth [OF i] have r: "r = (fst (journeyStages ! ?i), recentCount h ?i)" by simp
  have "forEachE (stageStep (sliceLast 3 h)) journeyStages [] = Inr scores"
    using ok by (simp add: stages_readable scores_def)
  then have res: "determineUserStage h journeyStages = Inr (fst r)"
    by (simp add: determineUserStage_def Let_def sx r_def del: foldl_Cons)
  have le: "\<forall>j<?n. recentCount h j \<le> recentCount h ?i"
  proof (intro allI impI)
    fix j assume j: "j < ?n"
    then have "scores ! j \<in> set scores" using len by simp
    then have "scores ! j \<in> set ys \<or> scores ! j = r \<or> scores ! j \<in> set zs"
      by (simp add: sc_split) blast
    with before after have "snd (scores ! j) \<le> snd r" by auto
    then show "recentCount h j \<le> recentCount h ?i" by (simp add: nth [OF j] r)
  qed
  have lt: "\<forall>j<?n. ?i < j \<longrightarrow> recentCount h j < recentCount h ?i"
  proof (intro allI impI)
    fix j assume j: "j < ?n" and ij: "?i < j"
    have e: "scores ! j = zs ! (j - Suc ?i)" using ij by (simp add: sc_split nth_append nth_Cons')
    have "length scores = length ys + Suc (length zs)" by (simp add: sc_split)
    with j ij len have "j - Suc ?i < length zs" by linarith
    then have "zs ! (j - Suc ?i) \<in> set zs" by simp
    with after e have "snd (scores ! j) < snd r" by simp
    then show "recentCount h j < recentCount h ?i" by (simp add: nth [OF j] r)
  qed
  from res r i le lt show ?thesis
    by (intro exI [of _ ?i]) simp
qed


theorem determineUserStage_last_best_witness:
  "Doc [] \<notin> set (sliceLast 3 [Doc ''hello, I need help'']) \<and>
   (\<exists>i<length journeyStages.
      determineUserStage [Doc ''hello, I need help''] journeyStages = Inr (fst (journeyStages ! i)) \<and>
      determineUserStage [Doc ''hello, I need help''] journeyStages = Inr ''support'')"
proof -
  have b: "Doc [] \<notin> set (sliceLast 3 [Doc ''hello, I need help''])" by (simp add: sliceLast_def)
  have ev: "determineUserStage [Doc ''hello, I need help''] journeyStages = Inr ''support''"
    by code_simp
  from determineUserStage_last_best [OF b]
  obtain i where "i < length journeyStages"
    "determineUserStage [Doc ''hello, I need help''] journeyStages = Inr (fst (journeyStages ! i))"
    by blast
  with b ev show ?thesis by blast
qed

text \<open>
  Claim C7 as stated fails: in "hello, I need help" the stages awareness (first in the
  table) and support (last) both count one keyword and no stage counts more, and the
  stage returned is support, not awareness.
\<close>

theorem determineUserStage_tie_counterexample:
  "determineUserStage [Doc ''hello, I need help''] journeyStages = Inr ''support'' \<and>
   map (\<lambda>j. (fst (journeyStages ! j), recentCount [Doc ''hello, I need help''] j)) [0, 1, 2, 3, 4, 5] =
     [(''awareness'', 1), (''interest'', 0), (''consideration'', 0), (''application'', 0),
      (''post_application'', 0), (''support'', 1)]"
  by code_simp

lemma bumpTopic_keys: "fst ` set (bumpTopic k topics) = insert k (fst ` set topics)"
proof (induction topics)
  case Nil
  then show ?case by simp
next
  case (Cons e topics)
  obtain k' n where e: "e = (k', n)" by (cases e)
  show ?case
  proof (cases "k = k'")
    case True
    then show ?thesis by (simp add: e)
  next
    case False
    with Cons.IH show ?thesis by (simp add: e insert_commute)
  qed
qed

lemma bestCategory_key:
  "fst (fold (bestCategoryStep ml) cats best) = Some c \<Longrightarrow>
   fst best = Some c \<or> c \<in> fst ` set cats"
proof (induction cats arbitrary: best)
  case Nil
  then show ?case by simp
next
  case (Cons e cats)
  from Cons.prems have "fst (fold (bestCategoryStep ml) cats (bestCategoryStep ml e best)) = Some c"
    by simp
  from Cons.IH [OF this] have "fst (bestCategoryStep ml e best) = Some c \<or> c \<in> fst ` set cats" .
  moreover have "fst (bestCategoryStep ml e best) = Some c \<Longrightarrow> fst best = Some c \<or> c = fst e"
    by (simp add: bestCategoryStep_def Let_def split: if_splits)
  ultimately show ?case by auto
qed

lemma analyzeSemanticContext_key:
  assumes "analyzeSemanticContext m h = Inr r" and "category r = Some c"
  shows "c \<in> fst ` set semanticCategories"
proof -
  from assms have "fst (fold (bestCategoryStep (toLowerCase m)) semanticCategories (None, 0)) = Some c"
    by (auto simp: analyzeSemanticContext_def Let_def split: option.splits sum.splits)
  from bestCategory_key [OF this] show ?thesis by simp
qed


lemma topicStep_keys:
  assumes "topicStep msg topics = Inr topics'" and "fst ` set topics \<subseteq> topicNames"
  shows "fst ` set topics' \<subseteq> topicNames"
proof -
  from assms(1) obtain s r where r: "analyzeSemanticContext s [] = Inr r"
    and t: "topics' = (case category r of None \<Rightarrow> topics | Some c \<Rightarrow> bumpTopic c topics)"
    by (auto simp: topicStep_def split: sum.splits option.splits)
  show ?thesis
  proof (cases "category r")
    case None
    with t assms(2) show ?thesis by simp
  next
    case (Some c)
    with analyzeSemanticContext_key [OF r] have "c \<in> topicNames" by (simp add: topicNames_def)
    with t Some assms(2) show ?thesis by (simp add: bumpTopic_keys)
  qed
qed

lemma topics_keys:
  "forEachE topicStep msgs topics = Inr topics' \<Longrightarrow> fst ` set topics \<subseteq> topicNames \<Longrightarrow>
   fst ` set topics' \<subseteq> topicNames"
proof (induction msgs arbitrary: topics)
  case Nil
  then show ?case by simp
next
  case (Cons m msgs)
  from Cons.prems(1) obtain t1 where s: "topicStep m topics = Inr t1"
    and rest: "forEachE topicStep msgs t1 = Inr topics'"
    by (auto split: sum.splits)
  from topicStep_keys [OF s Cons.prems(2)] have "fst ` set t1 \<subseteq> topicNames" .
  from Cons.IH [OF rest this] show ?case .
qed

lemma topicNames_no_comma: "k \<in> topicNames \<Longrightarrow> CHR '','' \<notin> set k"
  by (auto simp: topicNames_def initialTopics_def semanticCategories_def)

lemma entryKey_comma: "CHR '','' \<in> set (entryKey e)"
  by (simp add: entryKey_def)

lemma topicReducer_second:
  assumes "fst ` set topics \<subseteq> topicNames"
  shows "topicReducer topics a b = b"
proof -
  have "entryKey a \<notin> fst ` set topics"
    using assms topicNames_no_comma entryKey_comma by blast
  then have "map_of topics (entryKey a) = None" by (simp add: map_of_eq_None_iff)
  then show ?thesis by (simp add: topicReducer_def gtNum_def)
qed

lemma foldl_second: "(\<And>a b. f a b = b) \<Longrightarrow> foldl f x xs = last (x # xs)"
  by (induction xs arbitrary: x) auto

text \<open>
  Whatever the history, the primary field of a topic result is the last entry of the
  distribution: no key of the counters contains a comma, so both lookups of the reducer
  are undefined, the comparison is false and the reducer keeps its second argument.
\<close>

lemma identifyConversationTopic_primary:
  assumes "identifyConversationTopic h = Inr (Topic p d c)"
  shows "p = last d"
proof -
  from assms obtain topics where run: "forEachE topicStep (sliceLast 5 h) initialTopics = Inr topics"
    and red: "reduce (topicReducer topics) topics = Inr p" and d: "d = topics"
    by (auto simp: identifyConversationTopic_def Let_def split: if_splits sum.splits)
  have "fst ` set initialTopics \<subseteq> topicNames" by (simp add: topicNames_def)
  from topics_keys [OF run this] have keys: "fst ` set topics \<subseteq> topicNames" .
  from red obtain x xs where t: "topics = x # xs" and p: "p = foldl (topicReducer topics) x xs"
    by (cases topics) auto
  from p foldl_second [of "topicReducer topics" x xs] topicReducer_second [OF keys]
  have "p = last (x # xs)" by simp
  with t d show ?thesis by simp
qed

text \<open>
  Claim C3 at the history of the one message "I need a loan": the matcher puts the
  message in loan_inquiry, the only category counted, and the primary field is the last
  entry of the distribution, technical with count 0.
\<close>

theorem identifyConversationTopic_loan:
  "identifyConversationTopic [Doc ''I need a loan''] =
     Inr (Topic (''technical'', 0)
           [(''loan_inquiry'', 1), (''application'', 0), (''documents'', 0), (''repayment'', 0),
            (''support'', 0), (''technical'', 0)] 1) \<and>
   map_sum id category (analyzeSemanticContext ''I need a loan'' []) = Inr (Some ''loan_inquiry'')"
  by code_simp

section \<open>Intent recognition: the best intent\<close>

lemma falsy_zero: "(if v = 0 then 0 else v) = (v::rat)"
  by simp

lemma upt44: "[0..<44] = [0,1,2,3,4,5,6,7,8,9,10,11,12,13,14,15,16,17,18,19,20,21,22,23,24,25,26,27,28,29,30,31,32,33,34,35,36,37,38,39,40,41,42,43::nat]"
  by code_simp

lemma docs_length: "length tfidfDocuments = 44"
  by (simp add: tfidfDocuments_def intentTrainingData_def)

lemma scores_eval:
  "fold (\<lambda>i scs. scoreStep (snd (tfidfDocuments ! i)) (t i) scs) [0..<length tfidfDocuments] [] =
   map (\<lambda>k. (k, \<Sum>i\<leftarrow>[0..<length tfidfDocuments]. if snd (tfidfDocuments ! i) = k then t i else 0)) intentNames"
  unfolding docs_length upt44
  by (simp add: tfidfDocuments_def intentTrainingData_def intentNames_def scoreStep_def falsy_zero)


lemma intentScores_aggregate:
  "intentScores (recognizeIntent tfidf message) =
     map (\<lambda>k. (k, aggregateScore tfidf message k)) intentNames"
  by (simp add: recognizeIntent_def Let_def aggregateScore_def scores_eval)

text \<open>
  Claim C5. For every message (and whatever measures the TF-IDF index reports), when no
  intent has a strictly positive aggregate score recognizeIntent returns the sentinel
  general_inquiry with confidence 0; otherwise it returns the intent with the highest
  aggregate score, and every intent declared before it in the training table has a
  strictly smaller one.
\<close>

theorem recognizeIntent_best:
  "((\<forall>k\<in>set intentNames. aggregateScore tfidf message k \<le> 0) \<longrightarrow>
      intent (recognizeIntent tfidf message) = ''general_inquiry'' \<and>
      intentConfidence (recognizeIntent tfidf message) = 0) \<and>
   (\<not> (\<forall>k\<in>set intentNames. aggregateScore tfidf message k \<le> 0) \<longrightarrow>
      (\<exists>i<length intentNames.
         intent (recognizeIntent tfidf message) = intentNames ! i \<and>
         intentConfidence (recognizeIntent tfidf message) = aggregateScore tfidf message (intentNames ! i) \<and>
         (\<forall>j<length intentNames.
            aggregateScore tfidf message (intentNames ! j) \<le> aggregateScore tfidf message (intentNames ! i)) \<and>
         (\<forall>j<i. aggregateScore tfidf message (intentNames ! j) < aggregateScore tfidf message (intentNames ! i))))"
proof -
  let ?agg = "aggregateScore tfidf message"
  define scores where "scores = map (\<lambda>k. (k, ?agg k)) intentNames"
  define best where "best = fold bestIntentStep scores (''general_inquiry'', 0)"
  have len: "length scores = length intentNames" by (simp add: scores_def)
  have nth: "scores ! j = (intentNames ! j, ?agg (intentNames ! j))" if "j < length intentNames" for j
    using that by (simp add: scores_def)
  have sc: "intentScores (recognizeIntent tfidf message) = scores"
    by (simp add: intentScores_aggregate scores_def)
  then have "fst best = intent (recognizeIntent tfidf message) \<and>
             snd best = intentConfidence (recognizeIntent tfidf message)"
    by (simp add: recognizeIntent_def Let_def best_def)
  then have res: "intent (recognizeIntent tfidf message) = fst best"
      "intentConfidence (recognizeIntent tfidf message) = snd best" by simp_all
  have step: "bestIntentStep = (\<lambda>x b. if snd x > snd b then (fst x, snd x) else b)"
    by (intro ext) (simp add: bestIntentStep_def)
  have run: "fold (\<lambda>x b. if snd x > snd b then (fst x, snd x) else b) scores (''general_inquiry'', 0)
      = (fst best, snd best)"
    by (simp add: best_def step)
  from best_fold [OF run] show ?thesis
  proof
    assume none: "(\<forall>x\<in>set scores. snd x \<le> 0) \<and> fst best = ''general_inquiry'' \<and> snd best = 0"
    then have "\<forall>k\<in>set intentNames. ?agg k \<le> 0" by (simp add: scores_def)
    with none res show ?thesis by simp
  next
    assume "\<exists>ys x zs. scores = ys @ x # zs \<and> fst best = fst x \<and> snd best = snd x \<and> 0 < snd x \<and>
        (\<forall>y\<in>set ys. snd y < snd x) \<and> (\<forall>z\<in>set zs. snd z \<le> snd x)"
    then obtain ys x zs where h: "scores = ys @ x # zs" "fst best = fst x" "snd best = snd x"
        "0 < snd x" "\<forall>y\<in>set ys. snd y < snd x" "\<forall>z\<in>set zs. snd z \<le> snd x" by blast
    let ?i = "length ys"
    have i: "?i < length intentNames" using len by (simp add: h(1))
    have xi: "scores ! ?i = x" by (simp add: h(1))
    with nth [OF i] have x: "x = (intentNames ! ?i, ?agg (intentNames ! ?i))" by simp
    have "intentNames ! ?i \<in> set intentNames" using i by simp
    moreover have "\<not> ?agg (intentNames ! ?i) \<le> 0" using h(4) x by simp
    ultimately have pos: "\<not> (\<forall>k\<in>set intentNames. ?agg k \<le> 0)" by blast
    have le: "\<forall>j<length intentNames. ?agg (intentNames ! j) \<le> ?agg (intentNames ! ?i)"
    proof (intro allI impI)
      fix j assume j: "j < length intentNames"
      then have "scores ! j \<in> set scores" using len by simp
      then have "scores ! j \<in> set ys \<or> scores ! j = x \<or> scores ! j \<in> set zs"
        by (simp add: h(1)) blast
      with h(5,6) have "snd (scores ! j) \<le> snd x" by auto
      then show "?agg (intentNames ! j) \<le> ?agg (intentNames ! ?i)" by (simp add: nth [OF j] x)
    qed
    have lt: "\<forall>j<?i. ?agg (intentNames ! j) < ?agg (intentNames ! ?i)"
    proof (intro allI impI)
      fix j assume j: "j < ?i"
      then have "scores ! j = ys ! j" by (simp add: h(1) nth_append)
      with j h(5) have "snd (scores ! j) < snd x" by simp
      moreover have "j < length intentNames" using j i by simp
      ultimately show "?agg (intentNames ! j) < ?agg (intentNames ! ?i)" by (simp add: nth x)
    qed
    have "\<exists>i<length intentNames.
         intent (recognizeIntent tfidf message) = intentNames ! i \<and>
         intentConfidence (recognizeIntent tfidf message) = ?agg (intentNames ! i) \<and>
         (\<forall>j<length intentNames. ?agg (intentNames ! j) \<le> ?agg (intentNames ! i)) \<and>
         (\<forall>j<i. ?agg (intentNames ! j) < ?agg (intentNames ! i))"
      using i res h(2,3) x le lt by (intro exI [of _ ?i]) simp
    with pos show ?thesis by blast
  qed
qed

theorem recognizeIntent_best_witness:
  "\<not> (\<forall>k\<in>set intentNames.
         aggregateScore (\<lambda>terms i. if i = 6 \<or> i = 14 then 1 else 0) ''How do I apply'' k \<le> 0) \<and>
   (\<exists>i<length intentNames.
      intent (recognizeIntent (\<lambda>terms i. if i = 6 \<or> i = 14 then 1 else 0) ''How do I apply'') = intentNames ! i \<and>
      intentConfidence (recognizeIntent (\<lambda>terms i. if i = 6 \<or> i = 14 then 1 else 0) ''How do I apply'') =
        aggregateScore (\<lambda>terms i. if i = 6 \<or> i = 14 then 1 else 0) ''How do I apply'' (intentNames ! i)) \<and>
   intent (recognizeIntent (\<lambda>terms i. if i = 6 \<or> i = 14 then 1 else 0) ''How do I apply'') = ''application_process'' \<and>
   intent (recognizeIntent (\<lambda>terms i. 0) ''xyz'') = ''general_inquiry'' \<and>
   intentConfidence (recognizeIntent (\<lambda>terms i. 0) ''xyz'') = 0"
proof -
  let ?t = "\<lambda>(terms::string) (i::nat). if i = 6 \<or> i = 14 then (1::rat) else 0"
  have a: "aggregateScore ?t ''How do I apply'' ''application_process'' = 1"
    by code_simp
  have "''application_process'' \<in> set intentNames"
    by (simp add: intentNames_def intentTrainingData_def)
  with a have nz: "\<not> (\<forall>k\<in>set intentNames. aggregateScore ?t ''How do I apply'' k \<le> 0)"
    by force
  have ev: "intent (recognizeIntent ?t ''How do I apply'') = ''application_process''"
    by code_simp
  have z: "\<forall>k\<in>set intentNames. aggregateScore (\<lambda>terms i. 0) ''xyz'' k \<le> 0"
    by (simp add: aggregateScore_def)
  from recognizeIntent_best [of ?t "''How do I apply''"] nz
  have 1: "\<exists>i<length intentNames.
      intent (recognizeIntent ?t ''How do I apply'') = intentNames ! i \<and>
      intentConfidence (recognizeIntent ?t ''How do I apply'') =
        aggregateScore ?t ''How do I apply'' (intentNames ! i)"
    by blast
  from recognizeIntent_best [of "\<lambda>terms i. 0" "''xyz''"] z
  have 2: "intent (recognizeIntent (\<lambda>terms i. 0) ''xyz'') = ''general_inquiry'' \<and>
      intentConfidence (recognizeIntent (\<lambda>terms i. 0) ''xyz'') = 0"
    by blast
  from nz 1 2 ev show ?thesis by blast
qed

section \<open>Response scoring: what a pattern word contributes\<close>

lemma importantKeywords_positive: "map_of importantKeywords w = Some v \<Longrightarrow> 0 < v"
proof -
  assume "map_of importantKeywords w = Some v"
  then have "(w, v) \<in> set importantKeywords" by (rule map_of_SomeD)
  moreover have "list_all (\<lambda>e. 0 < snd e) importantKeywords"
    by (simp add: importantKeywords_def)
  ultimately show "0 < v" by (auto simp: list_all_iff)
qed

lemma commonWords_positive: "map_of commonWords w = Some v \<Longrightarrow> 0 < v"
proof -
  assume "map_of commonWords w = Some v"
  then have "(w, v) \<in> set commonWords" by (rule map_of_SomeD)
  moreover have "list_all (\<lambda>e. 0 < snd e) commonWords"
    by (simp add: commonWords_def)
  ultimately show "0 < v" by (auto simp: list_all_iff)
qed

lemma exactStep_total: "fst (exactStep mw w acc) = fst acc + exactWeight mw w"
  by (simp add: exactStep_def exactWeight_def split: option.splits)

lemma exactStep_count: "snd (exactStep mw w acc) \<le> snd acc + 1"
  by (simp add: exactStep_def split: option.splits)

lemma exactWeight_nonneg: "0 \<le> exactWeight mw w"
  using importantKeywords_positive [of w] commonWords_positive [of w]
  by (auto simp: exactWeight_def exactStep_def split: option.splits intro: less_imp_le)

lemma partialStep_total: "partialStep word m t = t + partialWeight word m"
  by (auto simp: partialStep_def partialWeight_def split: option.splits)

lemma partialWeight_nonneg: "0 \<le> partialWeight word m"
  using importantKeywords_positive [of word]
  by (auto simp: partialWeight_def partialStep_def split: option.splits intro: less_imp_le)

lemma exactPass_total:
  "fst (exactPass mw pw start) = fst start + (\<Sum>w\<leftarrow>pw. exactWeight mw w)"
  unfolding exactPass_def
  by (induction pw arbitrary: start) (simp_all add: exactStep_total)

lemma exactPass_count: "snd (exactPass mw pw start) \<le> snd start + length pw"
  unfolding exactPass_def
proof (induction pw arbitrary: start)
  case Nil
  then show ?case by simp
next
  case (Cons w pw)
  have "snd (fold (exactStep mw) pw (exactStep mw w start)) \<le> snd (exactStep mw w start) + length pw"
    by (rule Cons.IH)
  also have "\<dots> \<le> snd start + 1 + length pw" using exactStep_count [of mw w start] by simp
  finally show ?case by simp
qed

lemma exactPass_count_mono: "snd start \<le> snd (exactPass mw pw start)"
  unfolding exactPass_def
proof (induction pw arbitrary: start)
  case Nil
  then show ?case by simp
next
  case (Cons w pw)
  have "snd start \<le> snd (exactStep mw w start)"
    by (simp add: exactStep_def split: option.splits)
  also have "\<dots> \<le> snd (fold (exactStep mw) pw (exactStep mw w start))" by (rule Cons.IH)
  finally show ?case by simp
qed

lemma inner_partial_total:
  "fold (partialStep word) mw t = t + (\<Sum>m\<leftarrow>mw. partialWeight word m)"
  by (induction mw arbitrary: t) (simp_all add: partialStep_total [of _ _ "_ :: rat"])

lemma partialPass_total:
  "partialPass mw pw t = t + (\<Sum>w\<leftarrow>pw. \<Sum>m\<leftarrow>mw. partialWeight w m)"
  unfolding partialPass_def
  by (induction pw arbitrary: t) (simp_all add: inner_partial_total)

lemma wordTotal_sum:
  "wordTotal mw pw start =
     fst start + (\<Sum>w\<leftarrow>pw. exactWeight mw w) + (\<Sum>w\<leftarrow>pw. \<Sum>m\<leftarrow>mw. partialWeight w m)"
  by (simp add: wordTotal_def partialPass_total exactPass_total)

lemma wordTotal_lower: "fst start \<le> wordTotal mw pw start"
proof -
  have "0 \<le> (\<Sum>w\<leftarrow>pw. exactWeight mw w)"
    by (rule sum_list_nonneg) (auto simp: exactWeight_nonneg)
  moreover have "0 \<le> (\<Sum>w\<leftarrow>pw. \<Sum>m\<leftarrow>mw. partialWeight w m)"
    by (rule sum_list_nonneg) (auto intro!: sum_list_nonneg simp: partialWeight_nonneg)
  ultimately show ?thesis by (simp add: wordTotal_sum)
qed



lemma includesStr_refl: "includesStr w w"
proof -
  have "startsWith s s" for s by (induction s) auto
  then show ?thesis by (cases w) auto
qed


lemma scorePattern_total:
  "totalScore (scorePattern ml pat idx) =
     wordTotal (splitWs ml) (splitWs (toLowerCase pat))
       (if includesStr ml (toLowerCase pat) then (3, 1) else (0, 0))
     + (if list_ex (includesStr ml) questionWords then 1 / 2 else 0)"
  by (simp add: scorePattern_def Let_def wordTotal_def)





section \<open>Response selection: exact substring matches\<close>

lemma sort_key_head:
  fixes f :: "'a \<Rightarrow> rat"
  assumes "sort_key f xs = s # rest"
  shows "s \<in> set xs \<and> (\<forall>x\<in>set xs. f s \<le> f x)"
proof -
  have "set (sort_key f xs) = set xs" by simp
  with assms have mem: "set xs = insert s (set rest)" by simp
  have "sorted (map f (sort_key f xs))" by (rule sorted_sort_key)
  with assms have "\<forall>x\<in>set rest. f s \<le> f x" by simp
  with mem show ?thesis by auto
qed

lemma scored_member:
  assumes "p \<in> set patterns"
  shows "\<exists>i. scorePattern ml p i \<in> set (map (\<lambda>(pat, idx). scorePattern ml pat idx)
            (zip patterns [0..<length patterns]))"
proof -
  from assms obtain i where i: "i < length patterns" and p: "patterns ! i = p"
    by (auto simp: in_set_conv_nth)
  then have "(p, i) \<in> set (zip patterns [0..<length patterns])"
    by (auto simp: in_set_zip)
  then show ?thesis
    by (auto intro!: exI [of _ i] bexI [of _ "(p, i)"] simp: image_iff)
qed

lemma scored_pattern:
  assumes "s \<in> set (map (\<lambda>(pat, idx). scorePattern ml pat idx) (zip patterns [0..<length patterns]))"
  shows "pattern s \<in> set patterns"
proof -
  from assms obtain pat idx where "(pat, idx) \<in> set (zip patterns [0..<length patterns])"
    and s: "s = scorePattern ml pat idx" by auto
  then have "pat \<in> set patterns" by (auto dest: set_zip_leftD)
  with s show ?thesis by (simp add: scorePattern_def Let_def)
qed

lemma scorePattern_exact_bound:
  assumes "includesStr ml (toLowerCase p)"
  shows "pattern (scorePattern ml p i) = p
       \<and> 1 \<le> keywordCount (scorePattern ml p i)
       \<and> keywordCount (scorePattern ml p i) \<le> 1 + length (splitWs (toLowerCase p))
       \<and> 3 / of_nat (keywordCount (scorePattern ml p i)) \<le> patternScore (scorePattern ml p i)"
proof -
  let ?mw = "splitWs ml" and ?pw = "splitWs (toLowerCase p)"
  let ?ex = "exactPass ?mw ?pw (3, 1)"
  let ?t = "totalScore (scorePattern ml p i)"
  have kc: "keywordCount (scorePattern ml p i) = snd ?ex"
    using assms by (simp add: scorePattern_def Let_def)
  have lo: "1 \<le> snd ?ex" using exactPass_count_mono [of "(3, 1)" ?mw ?pw] by simp
  have hi: "snd ?ex \<le> 1 + length ?pw" using exactPass_count [of ?mw ?pw "(3, 1)"] by simp
  have "3 \<le> wordTotal ?mw ?pw (3, 1)" using wordTotal_lower [of "(3, 1)" ?mw ?pw] by simp
  then have t3: "3 \<le> ?t" using assms by (simp add: scorePattern_total)
  have sc: "patternScore (scorePattern ml p i) = ?t / of_nat (snd ?ex)"
    using assms lo by (simp add: scorePattern_def Let_def)
  have "3 / of_nat (snd ?ex) \<le> ?t / (of_nat (snd ?ex) :: rat)"
    using t3 lo by (intro divide_right_mono) simp_all
  with sc kc lo hi show ?thesis by (simp add: scorePattern_def Let_def)
qed

text \<open>
  Claim C1, as amended. For every message and every list of patterns (none of whose words
  is an inherited property name), if the message contains the pattern p as a
  case-insensitive substring, then the normalised score of p is at least 3.0 over its
  keyword count, which is at least 3.0 / (1 + number of words of p); at every threshold
  not above that value selectBestResponse returns a pattern of the list whose score is at
  least the score of p and at least the threshold. The pattern returned need not itself
  be contained in the message.
\<close>

theorem selectBestResponse_exact_match:
  assumes own: "ownWords patterns"
    and p: "p \<in> set patterns"
    and sub: "includesStr (toLowerCase message) (toLowerCase p)"
    and th: "threshold \<le> 3 / of_nat (1 + length (splitWs (toLowerCase p)))"
  shows "\<exists>b s. selectBestResponse message patterns threshold = Some b \<and>
           matchPattern b \<in> set patterns \<and>
           s \<in> set (allScores b) \<and> pattern s = p \<and>
           (3::rat) / of_nat (1 + length (splitWs (toLowerCase p))) \<le> 3 / of_nat (keywordCount s) \<and>
           3 / of_nat (keywordCount s) \<le> patternScore s \<and>
           patternScore s \<le> matchScore b \<and> threshold \<le> matchScore b"
proof -
  let ?ml = "toLowerCase message"
  define scores where
    "scores = map (\<lambda>(pat, idx). scorePattern ?ml pat idx) (zip patterns [0..<length patterns])"
  define sorted where "sorted = sort_key (\<lambda>s. - patternScore s) scores"
  have calc: "calculateResponseScore message patterns = sorted"
    by (simp add: calculateResponseScore_def Let_def sorted_def scores_def)
  from scored_member [OF p] obtain i where mem: "scorePattern ?ml p i \<in> set scores"
    unfolding scores_def by blast
  let ?s = "scorePattern ?ml p i"
  have smem: "?s \<in> set sorted" using mem by (simp add: sorted_def)
  then obtain top rest where top: "sorted = top # rest" by (cases sorted) auto
  from sort_key_head [of "\<lambda>s. - patternScore s" scores top rest] top
  have tin: "top \<in> set scores" and tmax: "\<forall>x\<in>set scores. patternScore x \<le> patternScore top"
    by (simp_all add: sorted_def)
  from scorePattern_exact_bound [OF sub, of i]
  have b: "pattern ?s = p" "1 \<le> keywordCount ?s"
     "keywordCount ?s \<le> 1 + length (splitWs (toLowerCase p))"
     "3 / of_nat (keywordCount ?s) \<le> patternScore ?s" by simp_all
  have "(0::rat) < of_nat (keywordCount ?s)" using b(2) by simp
  moreover have "(of_nat (keywordCount ?s) :: rat) \<le> of_nat (1 + length (splitWs (toLowerCase p)))"
    using b(3) by (simp only: of_nat_le_iff)
  ultimately have low: "(3::rat) / of_nat (1 + length (splitWs (toLowerCase p))) \<le> 3 / of_nat (keywordCount ?s)"
    by (intro divide_left_mono) simp_all
  from tmax mem have le: "patternScore ?s \<le> patternScore top" by blast
  with th low b(4) have ok: "threshold \<le> patternScore top" by linarith
  let ?b = "\<lparr> matchPattern = pattern top, matchScore = patternScore top,
              matchConfidence = min (patternScore top / 3) 1, allScores = top # rest \<rparr>"
  have res: "selectBestResponse message patterns threshold = Some ?b"
    using ok by (simp add: selectBestResponse_def calc top)
  have pin: "pattern top \<in> set patterns" using scored_pattern tin unfolding scores_def by blast
  have "?s \<in> set (allScores ?b)" using smem top by simp
  with res pin b(1,4) low le ok show ?thesis
    by (intro exI [of _ ?b] exI [of _ ?s]) simp
qed

theorem selectBestResponse_exact_match_witness:
  "ownWords [''loan'', ''loan x''] \<and> ''loan'' \<in> set [''loan'', ''loan x''] \<and>
   includesStr (toLowerCase ''Loan'') (toLowerCase ''loan'') \<and>
   (1 / 2 :: rat) \<le> 3 / of_nat (1 + length (splitWs (toLowerCase ''loan''))) \<and>
   (\<exists>b. selectBestResponse ''Loan'' [''loan'', ''loan x''] (1 / 2) = Some b \<and>
        matchPattern b \<in> set [''loan'', ''loan x''] \<and> 1 / 2 \<le> matchScore b)"
proof -
  have own: "ownWords [''loan'', ''loan x'']" by code_simp
  have p: "''loan'' \<in> set [''loan'', ''loan x'']" by simp
  have sub: "includesStr (toLowerCase ''Loan'') (toLowerCase ''loan'')" by code_simp
  have th: "(1 / 2 :: rat) \<le> 3 / of_nat (1 + length (splitWs (toLowerCase ''loan'')))" by code_simp
  from selectBestResponse_exact_match [OF own p sub th]
  have "\<exists>b. selectBestResponse ''Loan'' [''loan'', ''loan x''] (1 / 2) = Some b \<and>
        matchPattern b \<in> set [''loan'', ''loan x''] \<and> 1 / 2 \<le> matchScore b"
    by blast
  with own p sub th show ?thesis by blast
qed

text \<open>
  Claim C1 as stated fails: the message "loan" contains the pattern "loan" (score
  (3 + 2 + 1.4) / 2 = 3.2) and does not contain the pattern "loan x" (score
  (2 + 1.4) / 1 = 3.4), and selectBestResponse returns "loan x".
\<close>

theorem selectBestResponse_prefers_partial_counterexample:
  "includesStr (toLowerCase ''loan'') (toLowerCase ''loan'') \<and>
   \<not> includesStr (toLowerCase ''loan'') (toLowerCase ''loan x'') \<and>
   map_option matchPattern (selectBestResponse ''loan'' [''loan'', ''loan x''] (1 / 2)) = Some ''loan x'' \<and>
   map (\<lambda>s. (pattern s, patternScore s)) (calculateResponseScore ''loan'' [''loan'', ''loan x'']) =
     [(''loan x'', 17 / 5), (''loan'', 16 / 5)]"
  by code_simp

text \<open>
  The same happens with the patterns of generatePatternBasedResponse: the message "salary"
  contains the pattern "salary" (score (3 + 1.8 + 1.26) / 2 = 3.03) and the pattern
  returned is "minimum salary" (score (1.8 + 1.26) / 1 = 3.06), which it does not contain.
\<close>

lemma selectBestResponse_salary_table:
  "map_option (\<lambda>b. (matchPattern b, matchScore b))
       (selectBestResponse ''salary'' (map fst responsePatternTable) (3 / 10))
     = Some (''minimum salary'', 153 / 50) \<and>
   ''salary'' \<in> set (map fst responsePatternTable) \<and>
   \<not> includesStr (toLowerCase ''salary'') (toLowerCase ''minimum salary'')"
  by code_simp

section \<open>Response selection: messages without keywords\<close>

text \<open>
  A message that shares nothing with the patterns: it contains no question word and no
  pattern, and none of its words contains or is contained in a pattern word. Every
  pattern then scores 0 and selectBestResponse returns null at every positive threshold.
\<close>

lemma scorePattern_keyword_free:
  assumes "\<not> list_ex (includesStr ml) questionWords"
    and "\<not> includesStr ml (toLowerCase p)"
    and "\<forall>w\<in>set (splitWs (toLowerCase p)). \<forall>m\<in>set (splitWs ml).
           \<not> includesStr m w \<and> \<not> includesStr w m"
  shows "patternScore (scorePattern ml p i) = 0"
proof -
  let ?mw = "splitWs ml" and ?pw = "splitWs (toLowerCase p)"
  have notin: "w \<notin> set ?mw" if "w \<in> set ?pw" for w
    using assms(3) that includesStr_refl [of w] by blast
  have ex: "exactPass ?mw ws acc = acc" if "set ws \<subseteq> set ?pw" for ws acc
    using that unfolding exactPass_def
    by (induction ws arbitrary: acc) (auto simp: exactStep_def notin)
  have inner: "fold (partialStep w) ms t = t" if "w \<in> set ?pw" "set ms \<subseteq> set ?mw" for w ms t
    using that assms(3) by (induction ms arbitrary: t) (auto simp: partialStep_def)
  have part: "partialPass ?mw ws t = t" if "set ws \<subseteq> set ?pw" for ws t
    using that unfolding partialPass_def
    by (induction ws arbitrary: t) (auto simp: inner)
  show ?thesis
    using assms(1,2) by (simp add: scorePattern_def Let_def ex part)
qed

lemma selectBestResponse_keyword_free:
  assumes "0 < threshold"
    and "\<not> list_ex (includesStr (toLowerCase message)) questionWords"
    and "\<forall>p\<in>set patterns. \<not> includesStr (toLowerCase message) (toLowerCase p)"
    and "\<forall>p\<in>set patterns. \<forall>w\<in>set (splitWs (toLowerCase p)).
           \<forall>m\<in>set (splitWs (toLowerCase message)). \<not> includesStr m w \<and> \<not> includesStr w m"
  shows "selectBestResponse message patterns threshold = None"
proof (cases "calculateResponseScore message patterns")
  case Nil
  then show ?thesis by (simp add: selectBestResponse_def)
next
  case (Cons top rest)
  let ?ml = "toLowerCase message"
  define scores where
    "scores = map (\<lambda>(pat, idx). scorePattern ?ml pat idx) (zip patterns [0..<length patterns])"
  from Cons have "sort_key (\<lambda>s. - patternScore s) scores = top # rest"
    by (simp add: calculateResponseScore_def Let_def scores_def)
  from sort_key_head [OF this] have "top \<in> set scores" by simp
  then obtain pat idx where "(pat, idx) \<in> set (zip patterns [0..<length patterns])"
    and t: "top = scorePattern ?ml pat idx" unfolding scores_def by auto
  then have "pat \<in> set patterns" by (auto dest: set_zip_leftD)
  with assms(3,4) have "\<not> includesStr ?ml (toLowerCase pat)"
    "\<forall>w\<in>set (splitWs (toLowerCase pat)). \<forall>m\<in>set (splitWs ?ml).
           \<not> includesStr m w \<and> \<not> includesStr w m" by blast+
  from scorePattern_keyword_free [OF assms(2) this] t have "patternScore top = 0" by simp
  with assms(1) Cons show ?thesis by (simp add: selectBestResponse_def)
qed

lemma generatePatternBasedResponse_xyz:
  "generatePatternBasedResponse ''xyz'' = Inr DefaultResponse"
  by code_simp

lemma selectBestResponse_empty_table:
  "map_option (\<lambda>b. (matchPattern b, matchScore b))
       (selectBestResponse [] (map fst responsePatternTable) (3 / 10))
     = Some (''take another loan'', 14 / 5)"
  by code_simp

lemma generatePatternBasedResponse_empty:
  "generatePatternBasedResponse [] = Inr ReloanResponse"
  by code_simp

lemma generatePatternBasedResponse_trailing_blank:
  "generatePatternBasedResponse ''xyz '' = Inr ReloanResponse"
  by code_simp

text \<open>
  Claim C2 at the empty message. Its only word is the empty string, which every pattern
  word contains, so the partial-match pass fires for every important or unlisted pattern
  word: against the one pattern "loan" the score is 0.7 * 2.0 = 1.4, and against the
  patterns of generatePatternBasedResponse the best pattern is "take another loan" with
  score 0.7 + 0.7 + 1.4 = 2.8, so the reloan text is produced and not the default text.
  A message with a leading or trailing blank, as "xyz " here, has an empty word too.
\<close>

theorem selectBestResponse_empty_message:
  "map_option (\<lambda>b. (matchPattern b, matchScore b)) (selectBestResponse [] [''loan''] (1 / 2))
     = Some (''loan'', 7 / 5) \<and>
   map_option (\<lambda>b. (matchPattern b, matchScore b))
       (selectBestResponse [] (map fst responsePatternTable) (3 / 10))
     = Some (''take another loan'', 14 / 5) \<and>
   generatePatternBasedResponse [] = Inr ReloanResponse \<and>
   generatePatternBasedResponse ''xyz '' = Inr ReloanResponse"
proof -
  have "map_option (\<lambda>b. (matchPattern b, matchScore b)) (selectBestResponse [] [''loan''] (1 / 2))
     = Some (''loan'', 7 / 5)"
    by code_simp
  then show ?thesis
    using selectBestResponse_empty_table generatePatternBasedResponse_empty
      generatePatternBasedResponse_trailing_blank
    by simp
qed

section \<open>Entity extraction never raises\<close>

lemma tryCatch_Inr [simp]: "tryCatch (Inr v) h = Inr v"
  by (simp add: tryCatch_def)

lemma tryCatch_Inl [simp]: "tryCatch (Inl e) h = h e"
  by (simp add: tryCatch_def)

lemma bindE_Inr [simp]: "bindE (Inr v) f = f v"
  by (simp add: bindE_def)

lemma bindE_Inl [simp]: "bindE (Inl e) f = Inl e"
  by (simp add: bindE_def)











end
